theory Spec2Isabelle
  imports Complex_Main "HOL-Library.Sublist"
begin

section \<open>JavaScript values and strings\<close>

text \<open>
  Text is a list of code units. A \<^typ>\<open>char\<close> stands for one code unit below 256, so the
  texts covered are the ones of the Latin-1 range; the white space of the regular
  expression class \<^verbatim>\<open>\s\<close> and of \<^verbatim>\<open>String.prototype.trim\<close> is, in that range, tab, line
  feed, vertical tab, form feed, carriage return, space and no-break space.
\<close>

datatype jval =
    JNull
  | JBool bool
  | JNum real
  | JStr string
  | JArr "jval list"
  | JObj "(string \<times> jval) list"

text \<open>An object literal: its own properties by name.\<close>

type_synonym jsobject = "string \<rightharpoonup> jval"

definition is_space :: "char \<Rightarrow> bool" where
  "is_space c \<longleftrightarrow>
     c \<in> set [CHR 0x09, CHR 0x0A, CHR 0x0B, CHR 0x0C, CHR 0x0D, CHR 0x20, CHR 0xA0]"

definition trim :: "string \<Rightarrow> string" where
  "trim s = rev (dropWhile is_space (rev (dropWhile is_space s)))"

text \<open>
  Truthiness of a value that is either absent (\<^verbatim>\<open>undefined\<close>) or a string: only a
  non-empty string is truthy.
\<close>

fun truthy :: "string option \<Rightarrow> bool" where
  "truthy None = False"
| "truthy (Some s) = (s \<noteq> [])"

text \<open>\<^verbatim>\<open>x || d\<close> for a string-or-absent \<open>x\<close> and a string default.\<close>

definition or_default :: "string option \<Rightarrow> string \<Rightarrow> string" where
  "or_default x d = (case x of None \<Rightarrow> d | Some s \<Rightarrow> if s = [] then d else s)"

text \<open>A template literal prints an absent value as \<^verbatim>\<open>undefined\<close>.\<close>

definition tmpl :: "string option \<Rightarrow> string" where
  "tmpl x = (case x of None \<Rightarrow> ''undefined'' | Some s \<Rightarrow> s)"

section \<open>The response delegate: \<^verbatim>\<open>getClaudeResponse\<close>\<close>

text \<open>
  The tail \<^verbatim>\<open>\s*(\{[\s\S]*?\})\<close> of the two marker expressions, matched at the start of
  \<open>s\<close>: all white space is skipped (an opening brace is no white space, so the greedy
  \<^verbatim>\<open>\s*\<close> cannot stop earlier), then an opening brace is required, and the lazy body ends
  at the first closing brace after it. The result is the captured group.
\<close>

definition brace_payload :: "string \<Rightarrow> string option" where
  "brace_payload s =
     (case dropWhile is_space s of
        [] \<Rightarrow> None
      | c # r \<Rightarrow>
          if c = CHR ''{'' \<and> CHR ''}'' \<in> set r
          then Some (c # takeWhile (\<lambda>x. x \<noteq> CHR ''}'') r @ ''}'')
          else None)"

text \<open>
  \<^verbatim>\<open>fullText.match(/TAG\s*(\{[\s\S]*?\})/)\<close>: the leftmost position where the tag is
  followed by a payload; \<open>None\<close> is the \<^verbatim>\<open>null\<close> of a failed match, \<open>Some p\<close> carries
  group 1.
\<close>

fun marker_match :: "string \<Rightarrow> string \<Rightarrow> string option" where
  "marker_match tag [] = None"
| "marker_match tag (c # cs) =
     (if prefix tag (c # cs) then
        (case brace_payload (drop (length tag) (c # cs)) of
           Some p \<Rightarrow> Some p
         | None \<Rightarrow> marker_match tag cs)
      else marker_match tag cs)"

text \<open>
  \<^verbatim>\<open>fullText.replace(/PAT[\s\S]*$/, '')\<close>: everything from the leftmost occurrence of the
  literal \<open>pat\<close> to the end of the text is removed; without an occurrence the text is
  unchanged.
\<close>

fun cut_from :: "string \<Rightarrow> string \<Rightarrow> string" where
  "cut_from pat [] = []"
| "cut_from pat (c # cs) = (if prefix pat (c # cs) then [] else c # cut_from pat cs)"

text \<open>
  What the two marker expressions say of a text, stated on the text itself. A marker with
  the payload \<open>p\<close> stands behind \<open>a\<close>: the tag, white space, and \<open>p\<close>, which runs from an
  opening brace to the first closing brace after it. The text has a marker: somewhere the
  tag is followed by white space and a brace pair. The first marker of the text has the
  payload \<open>p\<close>: a marker with that payload stands where no marker stands earlier.
\<close>

definition marker_at :: "string \<Rightarrow> string \<Rightarrow> string \<Rightarrow> string \<Rightarrow> bool" where
  "marker_at tag s a p \<longleftrightarrow>
     (\<exists>w q b. s = a @ tag @ w @ p @ b \<and> (\<forall>c \<in> set w. is_space c)
        \<and> p = CHR ''{'' # q @ ''}'' \<and> CHR ''}'' \<notin> set q)"

definition has_marker :: "string \<Rightarrow> string \<Rightarrow> bool" where
  "has_marker tag s \<longleftrightarrow>
     (\<exists>a w q b. s = a @ tag @ w @ CHR ''{'' # q @ ''}'' @ b \<and> (\<forall>c \<in> set w. is_space c))"

definition first_marker :: "string \<Rightarrow> string \<Rightarrow> string \<Rightarrow> bool" where
  "first_marker tag s p \<longleftrightarrow>
     (\<exists>a. marker_at tag s a p \<and> (\<forall>a' p'. marker_at tag s a' p' \<longrightarrow> length a \<le> length a'))"

definition CONFIRMED_TAG :: string where
  "CONFIRMED_TAG = ''APPOINTMENT_CONFIRMED:''"

definition FAILED_TAG :: string where
  "FAILED_TAG = ''APPOINTMENT_FAILED:''"

text \<open>\<^verbatim>\<open>{ confirmed: b, ...data }\<close>: the properties of \<open>data\<close> are copied over the literal's.\<close>

definition spread_confirmed :: "bool \<Rightarrow> jsobject \<Rightarrow> jsobject" where
  "spread_confirmed b data = [''confirmed'' \<mapsto> JBool b] ++ data"

text \<open>\<^verbatim>\<open>{ confirmed: b, raw: p }\<close>\<close>

definition raw_result :: "bool \<Rightarrow> string \<Rightarrow> jsobject" where
  "raw_result b p = [''confirmed'' \<mapsto> JBool b, ''raw'' \<mapsto> JStr p]"

record claude_result =
  r_response :: string
  r_isComplete :: bool
  r_appointmentResult :: "jsobject option"

text \<open>
  The function, after the request to the language backend has returned: \<open>reply\<close> is
  \<open>Inl\<close> an error when the awaited request (or the access to its first content block)
  throws, and \<open>Inr\<close> the text of the first content block otherwise. \<open>JSON_parse\<close> is the
  platform's \<^verbatim>\<open>JSON.parse\<close> on texts that start with an opening brace: \<open>None\<close> when it
  throws, the parsed object otherwise.
\<close>

definition getClaudeResponse ::
  "(string \<Rightarrow> jsobject option) \<Rightarrow> string + string \<Rightarrow> string + claude_result" where
  "getClaudeResponse JSON_parse reply =
     (case reply of
        Inl err \<Rightarrow> Inl err
      | Inr text \<Rightarrow>
          (let fullText = trim text;
               confirmedMatch = marker_match CONFIRMED_TAG fullText;
               failedMatch = marker_match FAILED_TAG fullText
           in case confirmedMatch of
                Some p \<Rightarrow>
                  Inr \<lparr> r_response = trim (cut_from (CHR 0x0A # CONFIRMED_TAG) fullText),
                        r_isComplete = True,
                        r_appointmentResult =
                          Some (case JSON_parse p of
                                  Some data \<Rightarrow> spread_confirmed True data
                                | None \<Rightarrow> raw_result True p) \<rparr>
              | None \<Rightarrow>
                  (case failedMatch of
                     Some p \<Rightarrow>
                       Inr \<lparr> r_response = trim (cut_from (CHR 0x0A # FAILED_TAG) fullText),
                             r_isComplete = True,
                             r_appointmentResult =
                               Some (case JSON_parse p of
                                       Some data \<Rightarrow> spread_confirmed False data
                                     | None \<Rightarrow> raw_result False p) \<rparr>
                   | None \<Rightarrow>
                       Inr \<lparr> r_response = fullText,
                             r_isComplete = False,
                             r_appointmentResult = None \<rparr>)))"

subsection \<open>A parser for flat JSON objects\<close>

text \<open>
  \<^verbatim>\<open>JSON.parse\<close> itself is a parameter of the model. For concrete inputs the following
  parser is used in its place: it accepts an object whose member values are string
  literals without escape sequences, \<^verbatim>\<open>true\<close>, \<^verbatim>\<open>false\<close> or \<^verbatim>\<open>null\<close>, and returns
  \<open>None\<close> on every other text. Where it returns an object, that object is the one
  \<^verbatim>\<open>JSON.parse\<close> returns (a repeated name keeps its last value).
\<close>

definition json_ws :: "char \<Rightarrow> bool" where
  "json_ws c \<longleftrightarrow> c \<in> set [CHR 0x20, CHR 0x09, CHR 0x0A, CHR 0x0D]"

definition plain_string :: "string \<Rightarrow> (string \<times> string) option" where
  "plain_string s =
     (case s of
        [] \<Rightarrow> None
      | c # r \<Rightarrow>
          if c \<noteq> CHR 0x22 then None
          else (let body = takeWhile (\<lambda>x. x \<noteq> CHR 0x22) r;
                    rest = dropWhile (\<lambda>x. x \<noteq> CHR 0x22) r
                in if rest = [] \<or> list_ex (\<lambda>x. x = CHR 0x5C \<or> (of_char x :: nat) < 32) body
                   then None
                   else Some (body, tl rest)))"

definition flat_value :: "string \<Rightarrow> (jval \<times> string) option" where
  "flat_value s =
     (if prefix ''true'' s then Some (JBool True, drop 4 s)
      else if prefix ''false'' s then Some (JBool False, drop 5 s)
      else if prefix ''null'' s then Some (JNull, drop 4 s)
      else (case plain_string s of
              None \<Rightarrow> None
            | Some (b, r) \<Rightarrow> Some (JStr b, r)))"

fun flat_members :: "nat \<Rightarrow> jsobject \<Rightarrow> string \<Rightarrow> jsobject option" where
  "flat_members 0 acc s = None"
| "flat_members (Suc n) acc s =
     (case plain_string (dropWhile json_ws s) of
        None \<Rightarrow> None
      | Some (k, r1) \<Rightarrow>
          (case dropWhile json_ws r1 of
             [] \<Rightarrow> None
           | c # r2 \<Rightarrow>
               if c \<noteq> CHR '':'' then None
               else (case flat_value (dropWhile json_ws r2) of
                       None \<Rightarrow> None
                     | Some (v, r3) \<Rightarrow>
                         (case dropWhile json_ws r3 of
                            [] \<Rightarrow> None
                          | d # r4 \<Rightarrow>
                              if d = CHR '','' then flat_members n (acc(k \<mapsto> v)) r4
                              else if d = CHR ''}'' \<and> dropWhile json_ws r4 = []
                              then Some (acc(k \<mapsto> v))
                              else None))))"

definition JSON_parse_flat :: "string \<Rightarrow> jsobject option" where
  "JSON_parse_flat s =
     (case dropWhile json_ws s of
        [] \<Rightarrow> None
      | c # r \<Rightarrow>
          if c \<noteq> CHR ''{'' then None
          else (case dropWhile json_ws r of
                  [] \<Rightarrow> None
                | d # r' \<Rightarrow>
                    if d = CHR ''}''
                    then (if dropWhile json_ws r' = [] then Some Map.empty else None)
                    else flat_members (length s) Map.empty r))"

section \<open>The greeting builder\<close>

text \<open>
  \<^verbatim>\<open>buildInitialGreeting\<close>. The name and the service are strings; the preferred date and
  time are passed on as the request carried them, absent or a string.
\<close>

definition buildInitialGreeting ::
  "string \<Rightarrow> string \<Rightarrow> string \<Rightarrow> string option \<Rightarrow> string option \<Rightarrow> string" where
  "buildInitialGreeting customerName hairdresserName service preferredDate preferredTime =
     (let greeting = ''Hello! I'm calling on behalf of '' @ customerName @
                     '' to schedule a '' @ service @ '' appointment.'';
          greeting =
            (if truthy preferredDate \<and> truthy preferredTime then
               greeting @ '' They were hoping to come in on '' @ tmpl preferredDate @
                 '' around '' @ tmpl preferredTime @ ''.''
             else if truthy preferredDate then
               greeting @ '' They were hoping to come in on '' @ tmpl preferredDate @ ''.''
             else if truthy preferredTime then
               greeting @ '' They were hoping to come in around '' @ tmpl preferredTime @ ''.''
             else
               greeting @
                 '' They are flexible on timing and are looking for the next available slot.'')
      in greeting @ '' Is that something you can help me with?'')"

section \<open>Call sessions and the session store\<close>

datatype role = User | Assistant

record preferences =
  p_customerName :: string
  p_hairdresserName :: string
  p_service :: string
  p_preferredDate :: string
  p_preferredTime :: string
  p_hairdresserPhone :: string

record session =
  callSid :: string
  userPreferences :: preferences
  initialGreeting :: string
  claudeMessages :: "(role \<times> string) list"
  transcript :: "(role \<times> string) list"
  status :: string
  twilioStatus :: "string option"
  appointmentResult :: "jsobject option"
  createdAt :: nat

text \<open>\<^verbatim>\<open>callSessions\<close>, the map from call identifiers to session objects.\<close>

type_synonym registry = "string \<rightharpoonup> session"

text \<open>
  In the webhooks below the identifier \<^verbatim>\<open>req.body.CallSid\<close> is absent or a string; an
  absent one finds no session.
\<close>

text \<open>The statuses at which the polling client stops (\<^verbatim>\<open>TERMINAL_STATUSES\<close>).\<close>

definition TERMINAL_STATUSES :: "string list" where
  "TERMINAL_STATUSES = [''completed'', ''failed'', ''no-answer'', ''busy'', ''canceled'']"

definition terminal :: "string \<Rightarrow> bool" where
  "terminal st \<longleftrightarrow> st \<in> set TERMINAL_STATUSES"

record environment =
  BASE_URL :: "string option"
  TWILIO_PHONE_NUMBER :: "string option"

section \<open>Carrier instructions and responses\<close>

datatype verb =
    Say "string option" string
  | Gather string "verb list"
  | Redirect string
  | Pause nat
  | Hangup

text \<open>
  The speech gather every handler builds: action \<^verbatim>\<open>${baseUrl}/voice/gather\<close>, with one
  nested \<^verbatim>\<open>say\<close> in the voice \<^verbatim>\<open>alice\<close>.
\<close>

definition gather_say :: "string option \<Rightarrow> string \<Rightarrow> verb" where
  "gather_say baseUrl text = Gather (tmpl baseUrl @ ''/voice/gather'') [Say (Some ''alice'') text]"

definition redirect_no_input :: "string option \<Rightarrow> verb" where
  "redirect_no_input baseUrl = Redirect (tmpl baseUrl @ ''/voice/no-input'')"


datatype payload =
    ErrorJson string
  | CallJson string string
  | SessionJson string string "string option" "(role \<times> string) list" "jsobject option"
  | Xml "verb list"
  | PlainOK

record http_response =
  code :: nat
  body :: payload

definition xml :: "verb list \<Rightarrow> http_response" where
  "xml vs = \<lparr> code = 200, body = Xml vs \<rparr>"

definition unknown_session_twiml :: "verb list" where
  "unknown_session_twiml = [Say None ''Sorry, an error occurred. Goodbye.'', Hangup]"

section \<open>The control API\<close>

record api_call_body =
  hairdresserPhone :: "string option"
  hairdresserName :: "string option"
  customerName :: "string option"
  service :: "string option"
  preferredDate :: "string option"
  preferredTime :: "string option"

record call_params =
  to_number :: string
  from_number :: "string option"
  url :: string
  statusCallback :: string

definition missing_fields :: http_response where
  "missing_fields =
     \<lparr> code = 400,
       body = ErrorJson ''Missing required fields: hairdresserPhone, customerName, service'' \<rparr>"

definition missing_base_url :: http_response where
  "missing_base_url =
     \<lparr> code = 500,
       body = ErrorJson
         (''BASE_URL is not configured. Set it in your .env file to your public server URL '' @
          ''(e.g. from ngrok).'') \<rparr>"

text \<open>The object stored by \<^verbatim>\<open>callSessions.set\<close> for a placed call.\<close>

definition new_session ::
  "string \<Rightarrow> string \<Rightarrow> string \<Rightarrow> string \<Rightarrow> api_call_body \<Rightarrow> nat \<Rightarrow> session" where
  "new_session sid phone cname svc b now =
     (let initialGreeting =
            buildInitialGreeting cname (or_default (hairdresserName b) ''the salon'') svc
              (preferredDate b) (preferredTime b)
      in \<lparr> callSid = sid,
           userPreferences =
             \<lparr> p_customerName = cname,
               p_hairdresserName = or_default (hairdresserName b) ''the salon'',
               p_service = svc,
               p_preferredDate = or_default (preferredDate b) [],
               p_preferredTime = or_default (preferredTime b) [],
               p_hairdresserPhone = phone \<rparr>,
           initialGreeting = initialGreeting,
           claudeMessages = [],
           transcript = [(Assistant, initialGreeting)],
           status = ''calling'',
           twilioStatus = Some ''queued'',
           appointmentResult = None,
           createdAt = now \<rparr>)"

text \<open>
  \<^verbatim>\<open>POST /api/call\<close>. \<open>carrier\<close> is what the awaited \<^verbatim>\<open>twilioClient.calls.create\<close> does
  when it is reached: \<open>Inl\<close> the message of the error it throws, \<open>Inr\<close> the identifier of
  the call it placed. \<open>now\<close> is the clock. The third component of the result lists the
  requests sent to the carrier.
\<close>

definition post_api_call ::
  "environment \<Rightarrow> string + string \<Rightarrow> nat \<Rightarrow> registry \<Rightarrow> api_call_body \<Rightarrow>
     http_response \<times> registry \<times> call_params list" where
  "post_api_call env carrier now reg b =
     (case (hairdresserPhone b, customerName b, service b) of
        (Some phone, Some cname, Some svc) \<Rightarrow>
          if phone = [] \<or> cname = [] \<or> svc = [] then (missing_fields, reg, [])
          else if \<not> truthy (BASE_URL env) then (missing_base_url, reg, [])
          else
            (let request =
                   \<lparr> to_number = phone,
                     from_number = TWILIO_PHONE_NUMBER env,
                     url = tmpl (BASE_URL env) @ ''/voice/start'',
                     statusCallback = tmpl (BASE_URL env) @ ''/voice/status'' \<rparr>
             in case carrier of
                  Inl msg \<Rightarrow> (\<lparr> code = 500, body = ErrorJson msg \<rparr>, reg, [request])
                | Inr sid \<Rightarrow>
                    (\<lparr> code = 200, body = CallJson sid ''calling'' \<rparr>,
                     reg(sid \<mapsto> new_session sid phone cname svc b now),
                     [request]))
      | _ \<Rightarrow> (missing_fields, reg, []))"

text \<open>\<^verbatim>\<open>GET /api/call/:callSid\<close>\<close>

definition get_api_call :: "registry \<Rightarrow> string \<Rightarrow> http_response" where
  "get_api_call reg sid =
     (case reg sid of
        None \<Rightarrow> \<lparr> code = 404, body = ErrorJson ''Call not found'' \<rparr>
      | Some s \<Rightarrow>
          \<lparr> code = 200,
            body = SessionJson (callSid s) (status s) (twilioStatus s) (transcript s)
                     (appointmentResult s) \<rparr>)"

section \<open>The voice webhooks\<close>

subsection \<open>What each handler does to the session object\<close>

text \<open>\<^verbatim>\<open>POST /voice/start\<close>: the status is set without a look at the current one.\<close>

definition start_session :: "session \<Rightarrow> session" where
  "start_session s = s\<lparr> status := ''in-progress'' \<rparr>"

text \<open>\<^verbatim>\<open>POST /voice/gather\<close>, up to the awaited request: the speech is recorded twice.\<close>

definition gather_record :: "string \<Rightarrow> session \<Rightarrow> session" where
  "gather_record speechResult s =
     s\<lparr> claudeMessages := claudeMessages s @ [(User, speechResult)],
        transcript := transcript s @ [(User, speechResult)] \<rparr>"

definition apology :: string where
  "apology =
     ''I apologize, I encountered a technical issue. '' @
     ''I will have the customer reach out directly. Thank you and goodbye.''"

definition technical_error :: jsobject where
  "technical_error =
     [''confirmed'' \<mapsto> JBool False, ''reason'' \<mapsto> JStr ''Technical error during call'']"

text \<open>
  \<^verbatim>\<open>POST /voice/gather\<close>, from the return of the awaited request on: the \<^verbatim>\<open>try\<close> body
  when \<^verbatim>\<open>getClaudeResponse\<close> returned, the \<^verbatim>\<open>catch\<close> body when it threw. The result is
  the session and the instructions for the carrier.
\<close>

definition gather_resolve ::
  "(string \<Rightarrow> jsobject option) \<Rightarrow> string option \<Rightarrow> string + string \<Rightarrow> session \<Rightarrow>
     session \<times> verb list" where
  "gather_resolve JSON_parse baseUrl reply s =
     (case getClaudeResponse JSON_parse reply of
        Inr r \<Rightarrow>
          (let s1 = s\<lparr> claudeMessages := claudeMessages s @ [(Assistant, r_response r)],
                       transcript := transcript s @ [(Assistant, r_response r)] \<rparr>
           in if r_isComplete r then
                (s1\<lparr> status := ''completed'', appointmentResult := r_appointmentResult r \<rparr>,
                 [Say (Some ''alice'') (r_response r), Pause 1, Hangup])
              else
                (s1, [gather_say baseUrl (r_response r), redirect_no_input baseUrl]))
      | Inl err \<Rightarrow>
          (s\<lparr> status := ''failed'',
              appointmentResult := Some technical_error,
              transcript := transcript s @ [(Assistant, apology)] \<rparr>,
           [Say (Some ''alice'') apology, Hangup]))"

definition no_response :: jsobject where
  "no_response =
     [''confirmed'' \<mapsto> JBool False, ''reason'' \<mapsto> JStr ''No response from salon'']"

text \<open>\<^verbatim>\<open>POST /voice/no-input\<close>: the guarded assignment at its end.\<close>

definition no_input_session :: "session \<Rightarrow> session" where
  "no_input_session s =
     (if status s \<noteq> ''completed''
      then s\<lparr> status := ''no-answer'', appointmentResult := Some no_response \<rparr>
      else s)"

text \<open>The instructions \<^verbatim>\<open>POST /voice/no-input\<close> answers with, whatever the session.\<close>

definition no_input_twiml :: "string option \<Rightarrow> verb list" where
  "no_input_twiml baseUrl =
     [gather_say baseUrl
        ''I'm sorry, I didn't catch that. Are you able to help me schedule an appointment?'',
      Say (Some ''alice'')
        ''I didn't receive a response. I'll have the customer follow up directly. Goodbye.'',
      Hangup]"

definition call_reason :: "string \<Rightarrow> jsobject" where
  "call_reason callStatus =
     [''confirmed'' \<mapsto> JBool False, ''reason'' \<mapsto> JStr (''Call '' @ callStatus)]"

text \<open>
  \<^verbatim>\<open>POST /voice/status\<close>: \<open>callStatus\<close> is \<^verbatim>\<open>req.body.CallStatus\<close>, absent or a string.
\<close>

definition status_session :: "string option \<Rightarrow> session \<Rightarrow> session" where
  "status_session callStatus s =
     (let s1 = s\<lparr> twilioStatus := callStatus \<rparr>
      in case callStatus of
           None \<Rightarrow> s1
         | Some cs \<Rightarrow>
             if cs \<in> set [''failed'', ''busy'', ''no-answer'', ''canceled''] then
               (if status s1 \<noteq> ''completed'' then
                  (let s2 = s1\<lparr> status := (if cs = ''busy'' then ''busy'' else cs) \<rparr>
                   in if appointmentResult s2 = None
                      then s2\<lparr> appointmentResult := Some (call_reason cs) \<rparr>
                      else s2)
                else s1)
             else s1)"

subsection \<open>The handlers on the session store\<close>

definition voice_start ::
  "environment \<Rightarrow> registry \<Rightarrow> string option \<Rightarrow> http_response \<times> registry" where
  "voice_start env reg sid =
     (case sid of
        None \<Rightarrow> (xml unknown_session_twiml, reg)
      | Some k \<Rightarrow>
          (case reg k of
             None \<Rightarrow> (xml unknown_session_twiml, reg)
           | Some s \<Rightarrow>
               (xml [gather_say (BASE_URL env) (initialGreeting s),
                     redirect_no_input (BASE_URL env)],
                reg(k \<mapsto> start_session s))))"

text \<open>
  \<^verbatim>\<open>POST /voice/gather\<close> as one step; \<open>reply\<close> is what the awaited request to the language
  backend comes back with. Other callbacks may run while the handler waits: the events
  below therefore take the two halves apart.
\<close>

definition voice_gather ::
  "(string \<Rightarrow> jsobject option) \<Rightarrow> environment \<Rightarrow> string + string \<Rightarrow> registry \<Rightarrow>
     string option \<Rightarrow> string option \<Rightarrow> http_response \<times> registry" where
  "voice_gather JSON_parse env reply reg sid speech =
     (case sid of
        None \<Rightarrow> (xml unknown_session_twiml, reg)
      | Some k \<Rightarrow>
          (case reg k of
             None \<Rightarrow> (xml unknown_session_twiml, reg)
           | Some s \<Rightarrow>
               (let (s', twiml) =
                      gather_resolve JSON_parse (BASE_URL env) reply
                        (gather_record (or_default speech []) s)
                in (xml twiml, reg(k \<mapsto> s')))))"

definition voice_no_input ::
  "environment \<Rightarrow> registry \<Rightarrow> string option \<Rightarrow> http_response \<times> registry" where
  "voice_no_input env reg sid =
     (case sid of
        None \<Rightarrow> (xml (no_input_twiml (BASE_URL env)), reg)
      | Some k \<Rightarrow>
          (case reg k of
             None \<Rightarrow> (xml (no_input_twiml (BASE_URL env)), reg)
           | Some s \<Rightarrow> (xml (no_input_twiml (BASE_URL env)), reg(k \<mapsto> no_input_session s))))"

definition voice_status ::
  "registry \<Rightarrow> string option \<Rightarrow> string option \<Rightarrow> http_response \<times> registry" where
  "voice_status reg sid callStatus =
     (case sid of
        None \<Rightarrow> (\<lparr> code = 200, body = PlainOK \<rparr>, reg)
      | Some k \<Rightarrow>
          (case reg k of
             None \<Rightarrow> (\<lparr> code = 200, body = PlainOK \<rparr>, reg)
           | Some s \<Rightarrow> (\<lparr> code = 200, body = PlainOK \<rparr>, reg(k \<mapsto> status_session callStatus s))))"

subsection \<open>Events delivered to one session\<close>

datatype event =
    Start
  | Speech "string option"
  | DelegateDone "string + string"
  | NoInput
  | CarrierStatus "string option"

fun apply_event :: "(string \<Rightarrow> jsobject option) \<Rightarrow> event \<Rightarrow> session \<Rightarrow> session" where
  "apply_event P Start s = start_session s"
| "apply_event P (Speech sp) s = gather_record (or_default sp []) s"
| "apply_event P (DelegateDone reply) s = fst (gather_resolve P None reply s)"
| "apply_event P NoInput s = no_input_session s"
| "apply_event P (CarrierStatus cs) s = status_session cs s"

fun run :: "(string \<Rightarrow> jsobject option) \<Rightarrow> event list \<Rightarrow> session \<Rightarrow> session" where
  "run P [] s = s"
| "run P (e # es) s = run P es (apply_event P e s)"

fun is_start :: "event \<Rightarrow> bool" where
  "is_start Start = True"
| "is_start e = False"

fun is_delegate_done :: "event \<Rightarrow> bool" where
  "is_delegate_done (DelegateDone reply) = True"
| "is_delegate_done e = False"

subsection \<open>A request used in the examples\<close>

definition alex_body :: api_call_body where
  "alex_body =
     \<lparr> hairdresserPhone = Some ''+15550100'',
       hairdresserName = None,
       customerName = Some ''Alex'',
       service = Some ''haircut'',
       preferredDate = Some [],
       preferredTime = Some [] \<rparr>"

definition alex_session :: session where
  "alex_session = new_session ''CA1'' ''+15550100'' ''Alex'' ''haircut'' alex_body 0"

text \<open>
  The same call after the salon agreed and the delegate closed with a confirmed marker; the
  same call reported busy by the carrier; the same call answered and then reported
  canceled by the carrier; an environment with a base URL.
\<close>

definition booked_session :: session where
  "booked_session =
     run JSON_parse_flat
       [Start, Speech (Some ''Friday works.''),
        DelegateDone (Inr ''All set!\<newline>APPOINTMENT_CONFIRMED: {\"date\":\"Friday\"}'')]
       alex_session"

definition busy_session :: session where
  "busy_session = run JSON_parse_flat [CarrierStatus (Some ''busy'')] alex_session"


definition test_env :: environment where
  "test_env = \<lparr> BASE_URL = Some ''https://example.test'', TWILIO_PHONE_NUMBER = None \<rparr>"

section \<open>Properties\<close>

subsection \<open>The greeting\<close>

text \<open>
  Claim C5. The greeting opens with the purpose of the call (on whose behalf, which
  service). With a non-empty preferred date and a non-empty preferred time it goes on with
  both; with exactly one of them non-empty, with that one alone; with neither, with the
  sentence about being flexible and the next available slot, and with no date or time
  sentence. In each case the whole greeting is given.
\<close>

theorem greeting_purpose_and_preferences:
  fixes n h sv :: string and d t :: "string option" and D T :: string
  shows
  "prefix (''Hello! I'm calling on behalf of '' @ n @ '' to schedule a '' @ sv @ '' appointment.'')
      (buildInitialGreeting n h sv d t)
   \<and> (D \<noteq> [] \<and> T \<noteq> [] \<longrightarrow>
        buildInitialGreeting n h sv (Some D) (Some T) =
          ''Hello! I'm calling on behalf of '' @ n @ '' to schedule a '' @ sv @ '' appointment.'' @
          '' They were hoping to come in on '' @ D @ '' around '' @ T @ ''.'' @
          '' Is that something you can help me with?'')
   \<and> (D \<noteq> [] \<and> \<not> truthy t \<longrightarrow>
        buildInitialGreeting n h sv (Some D) t =
          ''Hello! I'm calling on behalf of '' @ n @ '' to schedule a '' @ sv @ '' appointment.'' @
          '' They were hoping to come in on '' @ D @ ''.'' @
          '' Is that something you can help me with?'')
   \<and> (\<not> truthy d \<and> T \<noteq> [] \<longrightarrow>
        buildInitialGreeting n h sv d (Some T) =
          ''Hello! I'm calling on behalf of '' @ n @ '' to schedule a '' @ sv @ '' appointment.'' @
          '' They were hoping to come in around '' @ T @ ''.'' @
          '' Is that something you can help me with?'')
   \<and> (\<not> truthy d \<and> \<not> truthy t \<longrightarrow>
        buildInitialGreeting n h sv d t =
          ''Hello! I'm calling on behalf of '' @ n @ '' to schedule a '' @ sv @ '' appointment.'' @
          '' They are flexible on timing and are looking for the next available slot.'' @
          '' Is that something you can help me with?'')"
proof -
  have p: "prefix (''Hello! I'm calling on behalf of '' @ n @ '' to schedule a '' @ sv @ '' appointment.'')
      (buildInitialGreeting n h sv d t)"
    unfolding buildInitialGreeting_def Let_def by (simp add: prefix_def)
  show ?thesis
    using p by (simp add: buildInitialGreeting_def Let_def tmpl_def)
qed

theorem greeting_purpose_and_preferences_witness:
  "buildInitialGreeting ''Alex'' ''the salon'' ''haircut'' (Some ''Friday'') (Some ''3pm'') =
     ''Hello! I'm calling on behalf of Alex to schedule a haircut appointment. They were hoping to come in on Friday around 3pm. Is that something you can help me with?''
   \<and> buildInitialGreeting ''Alex'' ''the salon'' ''haircut'' (Some ''Friday'') (Some []) =
     ''Hello! I'm calling on behalf of Alex to schedule a haircut appointment. They were hoping to come in on Friday. Is that something you can help me with?''
   \<and> buildInitialGreeting ''Alex'' ''the salon'' ''haircut'' None (Some ''3pm'') =
     ''Hello! I'm calling on behalf of Alex to schedule a haircut appointment. They were hoping to come in around 3pm. Is that something you can help me with?''
   \<and> buildInitialGreeting ''Alex'' ''the salon'' ''haircut'' (Some []) (Some []) =
     ''Hello! I'm calling on behalf of Alex to schedule a haircut appointment. They are flexible on timing and are looking for the next available slot. Is that something you can help me with?''"
  using greeting_purpose_and_preferences [where n = "''Alex''" and h = "''the salon''"
          and sv = "''haircut''" and d = "Some []" and t = "Some []" and D = "''Friday''" and T = "''3pm''"]
        greeting_purpose_and_preferences [where n = "''Alex''" and h = "''the salon''"
          and sv = "''haircut''" and d = None and t = "Some []" and D = "''Friday''" and T = "''3pm''"]
  by simp

subsection \<open>Placing a call\<close>

lemma truthy_Some_iff: "truthy x \<longleftrightarrow> (\<exists>s. x = Some s \<and> s \<noteq> [])"
  by (cases x) simp_all

lemma post_api_call_missing:
  assumes "\<not> truthy (hairdresserPhone b) \<or> \<not> truthy (customerName b) \<or> \<not> truthy (service b)"
  shows "post_api_call env carrier now reg b = (missing_fields, reg, [])"
  using assms
  by (cases "hairdresserPhone b"; cases "customerName b"; cases "service b")
     (auto simp: post_api_call_def)

lemma post_api_call_present:
  assumes "truthy (hairdresserPhone b)" "truthy (customerName b)" "truthy (service b)"
  shows "post_api_call env carrier now reg b =
      (if \<not> truthy (BASE_URL env) then (missing_base_url, reg, [])
       else (case carrier of
               Inl msg \<Rightarrow> (\<lparr> code = 500, body = ErrorJson msg \<rparr>, reg,
                   [\<lparr> to_number = the (hairdresserPhone b), from_number = TWILIO_PHONE_NUMBER env,
                      url = tmpl (BASE_URL env) @ ''/voice/start'',
                      statusCallback = tmpl (BASE_URL env) @ ''/voice/status'' \<rparr>])
             | Inr sid \<Rightarrow> (\<lparr> code = 200, body = CallJson sid ''calling'' \<rparr>,
                   reg(sid \<mapsto> new_session sid (the (hairdresserPhone b)) (the (customerName b))
                                  (the (service b)) b now),
                   [\<lparr> to_number = the (hairdresserPhone b), from_number = TWILIO_PHONE_NUMBER env,
                      url = tmpl (BASE_URL env) @ ''/voice/start'',
                      statusCallback = tmpl (BASE_URL env) @ ''/voice/status'' \<rparr>])))"
  using assms
  by (auto simp: post_api_call_def truthy_Some_iff Let_def split: sum.splits)

lemma new_session_fields:
  "callSid (new_session sid ph cn sv b now) = sid"
  "status (new_session sid ph cn sv b now) = ''calling''"
  "appointmentResult (new_session sid ph cn sv b now) = None"
  "twilioStatus (new_session sid ph cn sv b now) = Some ''queued''"
  by (simp_all add: new_session_def Let_def)

text \<open>
  Claim C6. \<^verbatim>\<open>POST /api/call\<close>: when the customer name, the phone number or the service
  is missing, the answer is 400 with an error message, nothing is sent to the carrier and
  the store is unchanged; when they are there and the base URL is not configured, the
  answer is 500; when all are there and the carrier returns a call identifier, the answer
  is 200 with that identifier and the status \<^verbatim>\<open>calling\<close>, and the store holds a new
  session under the identifier.
\<close>

theorem post_api_call_responses:
  "(\<not> truthy (hairdresserPhone b) \<or> \<not> truthy (customerName b) \<or> \<not> truthy (service b) \<longrightarrow>
      code (fst (post_api_call env carrier now reg b)) = 400
      \<and> (\<exists>msg. body (fst (post_api_call env carrier now reg b)) = ErrorJson msg)
      \<and> fst (snd (post_api_call env carrier now reg b)) = reg
      \<and> snd (snd (post_api_call env carrier now reg b)) = [])
   \<and> (truthy (hairdresserPhone b) \<and> truthy (customerName b) \<and> truthy (service b)
        \<and> \<not> truthy (BASE_URL env) \<longrightarrow>
      code (fst (post_api_call env carrier now reg b)) = 500
      \<and> fst (snd (post_api_call env carrier now reg b)) = reg
      \<and> snd (snd (post_api_call env carrier now reg b)) = [])
   \<and> (truthy (hairdresserPhone b) \<and> truthy (customerName b) \<and> truthy (service b)
        \<and> truthy (BASE_URL env) \<and> carrier = Inr sid \<longrightarrow>
      fst (post_api_call env carrier now reg b) = \<lparr> code = 200, body = CallJson sid ''calling'' \<rparr>
      \<and> (\<exists>s. fst (snd (post_api_call env carrier now reg b)) = reg(sid \<mapsto> s)
             \<and> callSid s = sid \<and> status s = ''calling'' \<and> appointmentResult s = None))"
proof (intro conjI impI)
  assume m: "\<not> truthy (hairdresserPhone b) \<or> \<not> truthy (customerName b) \<or> \<not> truthy (service b)"
  note r = post_api_call_missing [OF m, of env carrier now reg]
  show "code (fst (post_api_call env carrier now reg b)) = 400"
    by (simp add: r missing_fields_def)
  show "\<exists>msg. body (fst (post_api_call env carrier now reg b)) = ErrorJson msg"
    by (simp add: r missing_fields_def)
  show "fst (snd (post_api_call env carrier now reg b)) = reg" by (simp add: r)
  show "snd (snd (post_api_call env carrier now reg b)) = []" by (simp add: r)
next
  assume a: "truthy (hairdresserPhone b) \<and> truthy (customerName b) \<and> truthy (service b)
        \<and> \<not> truthy (BASE_URL env)"
  then have r: "post_api_call env carrier now reg b = (missing_base_url, reg, [])"
    by (simp add: post_api_call_present)
  show "code (fst (post_api_call env carrier now reg b)) = 500"
    by (simp add: r missing_base_url_def)
  show "fst (snd (post_api_call env carrier now reg b)) = reg" by (simp add: r)
  show "snd (snd (post_api_call env carrier now reg b)) = []" by (simp add: r)
next
  assume a: "truthy (hairdresserPhone b) \<and> truthy (customerName b) \<and> truthy (service b)
        \<and> truthy (BASE_URL env) \<and> carrier = Inr sid"
  then have r: "post_api_call env carrier now reg b =
      (\<lparr> code = 200, body = CallJson sid ''calling'' \<rparr>,
       reg(sid \<mapsto> new_session sid (the (hairdresserPhone b)) (the (customerName b))
                                  (the (service b)) b now),
       [\<lparr> to_number = the (hairdresserPhone b), from_number = TWILIO_PHONE_NUMBER env,
          url = tmpl (BASE_URL env) @ ''/voice/start'',
          statusCallback = tmpl (BASE_URL env) @ ''/voice/status'' \<rparr>])"
    by (simp add: post_api_call_present)
  show "fst (post_api_call env carrier now reg b) = \<lparr> code = 200, body = CallJson sid ''calling'' \<rparr>"
    by (simp add: r)
  show "\<exists>s. fst (snd (post_api_call env carrier now reg b)) = reg(sid \<mapsto> s)
             \<and> callSid s = sid \<and> status s = ''calling'' \<and> appointmentResult s = None"
    unfolding r by (rule exI [of _ "new_session sid (the (hairdresserPhone b)) (the (customerName b))
                                  (the (service b)) b now"]) (simp add: new_session_fields)
qed

theorem post_api_call_responses_witness:
  "code (fst (post_api_call \<lparr> BASE_URL = Some ''https://example.test'', TWILIO_PHONE_NUMBER = None \<rparr>
       (Inr ''CA1'') 0 Map.empty (alex_body\<lparr> service := None \<rparr>))) = 400
   \<and> code (fst (post_api_call \<lparr> BASE_URL = None, TWILIO_PHONE_NUMBER = None \<rparr>
       (Inr ''CA1'') 0 Map.empty alex_body)) = 500
   \<and> fst (post_api_call \<lparr> BASE_URL = Some ''https://example.test'', TWILIO_PHONE_NUMBER = None \<rparr>
       (Inr ''CA1'') 0 Map.empty alex_body) = \<lparr> code = 200, body = CallJson ''CA1'' ''calling'' \<rparr>
   \<and> (\<exists>s. fst (snd (post_api_call \<lparr> BASE_URL = Some ''https://example.test'', TWILIO_PHONE_NUMBER = None \<rparr>
       (Inr ''CA1'') 0 Map.empty alex_body)) = [''CA1'' \<mapsto> s]
        \<and> callSid s = ''CA1'' \<and> status s = ''calling'' \<and> appointmentResult s = None)"
  using post_api_call_responses [where b = "alex_body\<lparr> service := None \<rparr>" and reg = Map.empty
      and env = "\<lparr> BASE_URL = Some ''https://example.test'', TWILIO_PHONE_NUMBER = None \<rparr>"
      and carrier = "Inr ''CA1''" and now = 0 and sid = "''CA1''"]
    post_api_call_responses [where b = alex_body and reg = Map.empty
      and env = "\<lparr> BASE_URL = None, TWILIO_PHONE_NUMBER = None \<rparr>"
      and carrier = "Inr ''CA1''" and now = 0 and sid = "''CA1''"]
    post_api_call_responses [where b = alex_body and reg = Map.empty
      and env = "\<lparr> BASE_URL = Some ''https://example.test'', TWILIO_PHONE_NUMBER = None \<rparr>"
      and carrier = "Inr ''CA1''" and now = 0 and sid = "''CA1''"]
  by (simp add: alex_body_def)

subsection \<open>The outcome marker\<close>

text \<open>
  What the replacement leaves: a part of the text in which the line feed followed by the
  tag no longer occurs.
\<close>

lemma prefix_cut_from: "prefix (cut_from pat s) s"
  by (induction s) auto

lemma cut_from_no_occurrence:
  assumes "pat \<noteq> []"
  shows "\<not> sublist pat (cut_from pat s)"
proof (induction s)
  case Nil
  then show ?case using assms by simp
next
  case (Cons c cs)
  show ?case
  proof (cases "prefix pat (c # cs)")
    case True
    then show ?thesis using assms by simp
  next
    case False
    have "\<not> prefix pat (c # cut_from pat cs)"
    proof
      assume "prefix pat (c # cut_from pat cs)"
      moreover have "prefix (c # cut_from pat cs) (c # cs)"
        by (simp add: prefix_cut_from)
      ultimately have "prefix pat (c # cs)" by (rule prefix_order.trans)
      with False show False by simp
    qed
    with False Cons.IH show ?thesis
      by (simp add: sublist_Cons_right)
  qed
qed

lemma sublist_trim: "sublist (trim s) s"
proof -
  have "suffix (dropWhile is_space (rev (dropWhile is_space s))) (rev (dropWhile is_space s))"
    by (rule suffix_dropWhile)
  then have "prefix (trim s) (dropWhile is_space s)"
    by (simp add: trim_def suffix_to_prefix)
  then have "sublist (trim s) (dropWhile is_space s)" by (rule prefix_imp_sublist)
  moreover have "sublist (dropWhile is_space s) s"
    by (rule suffix_imp_sublist) (rule suffix_dropWhile)
  ultimately show ?thesis by (rule sublist_order.order.trans)
qed

lemma trim_cut_no_occurrence:
  assumes "pat \<noteq> []"
  shows "\<not> sublist pat (trim (cut_from pat s))"
proof
  assume "sublist pat (trim (cut_from pat s))"
  then have "sublist pat (cut_from pat s)"
    using sublist_trim by (rule sublist_order.order.trans)
  with cut_from_no_occurrence [OF assms] show False by simp
qed

text \<open>
  The search and the text. The search finds nothing exactly when the text has no marker,
  and it returns \<open>p\<close> exactly when the first marker of the text has the payload \<open>p\<close>.
\<close>

lemma brace_payload_shape:
  assumes "brace_payload s = Some p"
  shows "\<exists>w b q. s = w @ p @ b \<and> (\<forall>c \<in> set w. is_space c)
            \<and> p = CHR ''{'' # q @ ''}'' \<and> CHR ''}'' \<notin> set q"
proof -
  obtain c r where d: "dropWhile is_space s = c # r"
    using assms by (auto simp: brace_payload_def split: list.splits)
  from assms d have c: "c = CHR ''{''" and r: "CHR ''}'' \<in> set r"
    and p: "p = c # takeWhile (\<lambda>x. x \<noteq> CHR ''}'') r @ ''}''"
    by (auto simp: brace_payload_def split: if_splits)
  let ?q = "takeWhile (\<lambda>x. x \<noteq> CHR ''}'') r"
  let ?t = "dropWhile (\<lambda>x. x \<noteq> CHR ''}'') r"
  from r have "?t \<noteq> []" by simp
  moreover have "hd ?t = CHR ''}''" using r hd_dropWhile [of "\<lambda>x. x \<noteq> CHR ''}''" r] by auto
  ultimately have t: "?t = CHR ''}'' # tl ?t" by (cases ?t) auto
  have "r = ?q @ ?t" by simp
  with t have r': "r = ?q @ CHR ''}'' # tl ?t" by simp
  have "s = takeWhile is_space s @ dropWhile is_space s" by simp
  with d r' have "s = takeWhile is_space s @ (c # ?q @ ''}'') @ tl ?t" by simp
  moreover have "\<forall>x \<in> set (takeWhile is_space s). is_space x"
    by (auto dest: set_takeWhileD)
  moreover have "CHR ''}'' \<notin> set ?q" by (auto dest: set_takeWhileD)
  ultimately show ?thesis using p c by blast
qed

lemma not_space_braces: "\<not> is_space CHR ''{''" "\<not> is_space CHR ''}''"
  by (simp_all add: is_space_def)

lemma brace_payload_complete:
  assumes "\<forall>c \<in> set w. is_space c" and "CHR ''}'' \<notin> set q"
  shows "brace_payload (w @ (CHR ''{'' # q @ ''}'') @ b) = Some (CHR ''{'' # q @ ''}'')"
proof -
  have d: "dropWhile is_space (w @ CHR ''{'' # q @ ''}'' @ b) = CHR ''{'' # q @ ''}'' @ b"
    using assms(1) not_space_braces(1) by (induction w) auto
  have t: "takeWhile (\<lambda>x. x \<noteq> CHR ''}'') (q @ CHR ''}'' # b) = q"
    using assms(2) by (induction q) auto
  show ?thesis using d t by (simp add: brace_payload_def)
qed

lemma brace_payload_iff:
  "brace_payload r = Some p \<longleftrightarrow>
     (\<exists>w q b. r = w @ p @ b \<and> (\<forall>c \<in> set w. is_space c)
        \<and> p = CHR ''{'' # q @ ''}'' \<and> CHR ''}'' \<notin> set q)"
proof
  assume "brace_payload r = Some p"
  from brace_payload_shape [OF this] show
    "\<exists>w q b. r = w @ p @ b \<and> (\<forall>c \<in> set w. is_space c)
        \<and> p = CHR ''{'' # q @ ''}'' \<and> CHR ''}'' \<notin> set q" by blast
next
  assume "\<exists>w q b. r = w @ p @ b \<and> (\<forall>c \<in> set w. is_space c)
        \<and> p = CHR ''{'' # q @ ''}'' \<and> CHR ''}'' \<notin> set q"
  then obtain w q b where "r = w @ p @ b" "\<forall>c \<in> set w. is_space c"
    "p = CHR ''{'' # q @ ''}''" "CHR ''}'' \<notin> set q" by blast
  then show "brace_payload r = Some p"
    using brace_payload_complete [of w q b] by simp
qed

lemma marker_at_Nil:
  "marker_at tag s [] p \<longleftrightarrow> prefix tag s \<and> brace_payload (drop (length tag) s) = Some p"
proof
  assume "marker_at tag s [] p"
  then obtain w q b where s: "s = tag @ w @ p @ b" and w: "\<forall>c \<in> set w. is_space c"
    and p: "p = CHR ''{'' # q @ ''}''" and q: "CHR ''}'' \<notin> set q"
    by (auto simp: marker_at_def)
  from s have "drop (length tag) s = w @ p @ b" by simp
  with w p q have "brace_payload (drop (length tag) s) = Some p"
    by (auto simp: brace_payload_iff)
  with s show "prefix tag s \<and> brace_payload (drop (length tag) s) = Some p" by simp
next
  assume a: "prefix tag s \<and> brace_payload (drop (length tag) s) = Some p"
  then obtain rest where s: "s = tag @ rest" by (auto simp: prefix_def)
  with a have "brace_payload rest = Some p" by simp
  then obtain w q b where "rest = w @ p @ b" "\<forall>c \<in> set w. is_space c"
    "p = CHR ''{'' # q @ ''}''" "CHR ''}'' \<notin> set q"
    by (auto simp: brace_payload_iff)
  with s show "marker_at tag s [] p" by (auto simp: marker_at_def)
qed

lemma marker_at_Cons:
  "marker_at tag (c # cs) (c' # a) p \<longleftrightarrow> c' = c \<and> marker_at tag cs a p"
  by (auto simp: marker_at_def)

lemma marker_at_empty_text: "\<not> marker_at tag [] a p"
  by (auto simp: marker_at_def)

lemma marker_match_None_iff:
  "marker_match tag s = None \<longleftrightarrow> (\<forall>a p. \<not> marker_at tag s a p)"
proof (induction s)
  case Nil
  then show ?case by (simp add: marker_at_empty_text)
next
  case (Cons c cs)
  show ?case
  proof (cases "prefix tag (c # cs) \<and> brace_payload (drop (length tag) (c # cs)) \<noteq> None")
    case True
    then obtain p where p: "brace_payload (drop (length tag) (c # cs)) = Some p" by auto
    with True have "marker_at tag (c # cs) [] p" by (simp add: marker_at_Nil)
    moreover from True p have "marker_match tag (c # cs) = Some p" by simp
    ultimately show ?thesis by auto
  next
    case False
    then have m: "marker_match tag (c # cs) = marker_match tag cs"
      by (auto split: option.splits)
    have "(\<forall>a p. \<not> marker_at tag (c # cs) a p) \<longleftrightarrow> (\<forall>a p. \<not> marker_at tag cs a p)"
    proof
      assume h: "\<forall>a p. \<not> marker_at tag (c # cs) a p"
      show "\<forall>a p. \<not> marker_at tag cs a p"
      proof (intro allI notI)
        fix a p assume "marker_at tag cs a p"
        then have "marker_at tag (c # cs) (c # a) p" by (simp add: marker_at_Cons)
        with h show False by blast
      qed
    next
      assume h: "\<forall>a p. \<not> marker_at tag cs a p"
      show "\<forall>a p. \<not> marker_at tag (c # cs) a p"
      proof (intro allI notI)
        fix a p assume ma: "marker_at tag (c # cs) a p"
        show False
        proof (cases a)
          case Nil
          with ma False show False by (auto simp: marker_at_Nil)
        next
          case (Cons c' a')
          with ma h show False by (auto simp: marker_at_Cons)
        qed
      qed
    qed
    with m Cons.IH show ?thesis by simp
  qed
qed

lemma marker_match_Some_iff:
  "marker_match tag s = Some p \<longleftrightarrow> first_marker tag s p"
proof (induction s)
  case Nil
  then show ?case by (simp add: first_marker_def marker_at_empty_text)
next
  case (Cons c cs)
  show ?case
  proof (cases "prefix tag (c # cs) \<and> brace_payload (drop (length tag) (c # cs)) \<noteq> None")
    case True
    then obtain p0 where p0: "brace_payload (drop (length tag) (c # cs)) = Some p0" by auto
    with True have at0: "marker_at tag (c # cs) [] p0" by (simp add: marker_at_Nil)
    from True p0 have m: "marker_match tag (c # cs) = Some p0" by simp
    have "first_marker tag (c # cs) p \<longleftrightarrow> p = p0"
    proof
      assume "first_marker tag (c # cs) p"
      then obtain a where a: "marker_at tag (c # cs) a p"
        and least: "\<forall>a' p'. marker_at tag (c # cs) a' p' \<longrightarrow> length a \<le> length a'"
        by (auto simp: first_marker_def)
      from least at0 have "a = []" by fastforce
      with a p0 show "p = p0" by (simp add: marker_at_Nil)
    next
      assume "p = p0"
      with at0 show "first_marker tag (c # cs) p"
        unfolding first_marker_def by (intro exI [of _ "[]"]) simp
    qed
    with m show ?thesis by auto
  next
    case False
    then have m: "marker_match tag (c # cs) = marker_match tag cs"
      by (auto split: option.splits)
    from False have no0: "\<And>p'. \<not> marker_at tag (c # cs) [] p'" by (auto simp: marker_at_Nil)
    have shift: "\<And>a' p'. marker_at tag (c # cs) a' p' \<longleftrightarrow> (\<exists>a''. a' = c # a'' \<and> marker_at tag cs a'' p')"
    proof -
      fix a' p'
      show "marker_at tag (c # cs) a' p' \<longleftrightarrow> (\<exists>a''. a' = c # a'' \<and> marker_at tag cs a'' p')"
        using no0 by (cases a') (auto simp: marker_at_Cons)
    qed
    have "first_marker tag (c # cs) p \<longleftrightarrow> first_marker tag cs p"
    proof
      assume "first_marker tag (c # cs) p"
      then obtain a where a: "marker_at tag (c # cs) a p"
        and least: "\<forall>a' p'. marker_at tag (c # cs) a' p' \<longrightarrow> length a \<le> length a'"
        by (auto simp: first_marker_def)
      from a shift obtain a0 where a0: "a = c # a0" "marker_at tag cs a0 p" by blast
      have "\<forall>a' p'. marker_at tag cs a' p' \<longrightarrow> length a0 \<le> length a'"
      proof (intro allI impI)
        fix a' p' assume "marker_at tag cs a' p'"
        then have "marker_at tag (c # cs) (c # a') p'" by (simp add: marker_at_Cons)
        with least have "length a \<le> length (c # a')" by blast
        with a0 show "length a0 \<le> length a'" by simp
      qed
      with a0 show "first_marker tag cs p" by (auto simp: first_marker_def)
    next
      assume "first_marker tag cs p"
      then obtain a0 where a0: "marker_at tag cs a0 p"
        and least: "\<forall>a' p'. marker_at tag cs a' p' \<longrightarrow> length a0 \<le> length a'"
        by (auto simp: first_marker_def)
      have "marker_at tag (c # cs) (c # a0) p" using a0 by (simp add: marker_at_Cons)
      moreover have "\<forall>a' p'. marker_at tag (c # cs) a' p' \<longrightarrow> length (c # a0) \<le> length a'"
      proof (intro allI impI)
        fix a' p' assume "marker_at tag (c # cs) a' p'"
        with shift obtain a'' where "a' = c # a''" "marker_at tag cs a'' p'" by blast
        with least show "length (c # a0) \<le> length a'" by auto
      qed
      ultimately show "first_marker tag (c # cs) p" unfolding first_marker_def by blast
    qed
    with m Cons.IH show ?thesis by simp
  qed
qed

lemma has_marker_iff_marker_at: "has_marker tag s \<longleftrightarrow> (\<exists>a p. marker_at tag s a p)"
proof
  assume "has_marker tag s"
  then obtain a w q b where s: "s = a @ tag @ w @ CHR ''{'' # q @ ''}'' @ b"
    and w: "\<forall>c \<in> set w. is_space c" by (auto simp: has_marker_def)
  let ?q = "takeWhile (\<lambda>x. x \<noteq> CHR ''}'') (q @ ''}'' @ b)"
  let ?t = "dropWhile (\<lambda>x. x \<noteq> CHR ''}'') (q @ ''}'' @ b)"
  have "?t \<noteq> []" by simp
  moreover have "hd ?t = CHR ''}''"
    using hd_dropWhile [of "\<lambda>x. x \<noteq> CHR ''}''" "q @ ''}'' @ b"] by auto
  ultimately have t: "?t = CHR ''}'' # tl ?t" by (cases ?t) auto
  have "q @ ''}'' @ b = ?q @ ?t" by simp
  with t have "q @ ''}'' @ b = ?q @ CHR ''}'' # tl ?t" by simp
  with s have "s = a @ tag @ w @ (CHR ''{'' # ?q @ ''}'') @ tl ?t" by simp
  moreover have "CHR ''}'' \<notin> set ?q" by (auto dest: set_takeWhileD)
  ultimately have "marker_at tag s a (CHR ''{'' # ?q @ ''}'')"
    using w unfolding marker_at_def by blast
  then show "\<exists>a p. marker_at tag s a p" by blast
next
  assume "\<exists>a p. marker_at tag s a p"
  then show "has_marker tag s" by (fastforce simp: marker_at_def has_marker_def)
qed

lemma marker_match_None_iff_has_marker:
  "marker_match tag s = None \<longleftrightarrow> \<not> has_marker tag s"
  by (simp add: marker_match_None_iff has_marker_iff_marker_at)

text \<open>
  Trimming the text neither adds nor removes a marker: the tags hold no white space, and
  a payload ends with a brace.
\<close>

lemma has_marker_iff_match: "has_marker tag s \<longleftrightarrow> marker_match tag s \<noteq> None"
  by (simp add: marker_match_None_iff_has_marker)

lemma marker_match_skip_space:
  assumes "tag \<noteq> []" "\<not> is_space (hd tag)" "is_space c"
  shows "marker_match tag (c # cs) = marker_match tag cs"
proof -
  have "\<not> prefix tag (c # cs)"
  proof
    assume "prefix tag (c # cs)"
    with assms(1) have "hd tag = c" by (cases tag) auto
    with assms(2,3) show False by simp
  qed
  then show ?thesis by simp
qed

lemma marker_match_dropWhile:
  assumes "tag \<noteq> []" "\<not> is_space (hd tag)"
  shows "marker_match tag (dropWhile is_space s) = marker_match tag s"
  by (induction s) (simp_all add: marker_match_skip_space [OF assms] del: marker_match.simps(2))

lemma marker_match_spaces:
  assumes "tag \<noteq> []" "\<not> is_space (hd tag)" "\<forall>c \<in> set t. is_space c"
  shows "marker_match tag t = None"
  using assms(3)
  by (induction t) (simp_all add: marker_match_skip_space [OF assms(1,2)] del: marker_match.simps(2))

lemma brace_payload_trailing_space:
  assumes "\<forall>c \<in> set t. is_space c"
  shows "brace_payload (x @ t) = brace_payload x"
proof (cases "dropWhile is_space x")
  case Nil
  then have "\<forall>c \<in> set x. is_space c" by (simp add: dropWhile_eq_Nil_conv)
  with assms have e: "dropWhile is_space (x @ t) = []" by (simp add: dropWhile_eq_Nil_conv)
  show ?thesis by (simp only: brace_payload_def Nil e list.case)
next
  case (Cons c r)
  then have "\<not> (\<forall>c \<in> set x. is_space c)"
    using dropWhile_eq_Nil_conv [of is_space x] by auto
  then have d: "dropWhile is_space (x @ t) = c # r @ t"
    using Cons by (auto simp: dropWhile_append)
  have nt: "CHR ''}'' \<notin> set t" using assms not_space_braces(2) by auto
  show ?thesis
  proof (cases "CHR ''}'' \<in> set r")
    case True
    then have "takeWhile (\<lambda>x. x \<noteq> CHR ''}'') (r @ t) = takeWhile (\<lambda>x. x \<noteq> CHR ''}'') r"
      by (auto simp: takeWhile_append)
    with True Cons d show ?thesis by (simp add: brace_payload_def)
  next
    case False
    with nt Cons d show ?thesis by (simp add: brace_payload_def)
  qed
qed

lemma prefix_tag_trailing_space:
  assumes "\<forall>c \<in> set tag. \<not> is_space c" "\<forall>c \<in> set t. is_space c"
  shows "prefix tag (x @ t) \<longleftrightarrow> prefix tag x"
proof
  assume "prefix tag (x @ t)"
  then have "prefix tag x \<or> (\<exists>us. tag = x @ us \<and> prefix us t)"
    by (simp add: prefix_append)
  then show "prefix tag x"
  proof (elim disjE exE conjE)
    fix us assume tag: "tag = x @ us" and us: "prefix us t"
    show "prefix tag x"
    proof (cases us)
      case Nil
      with tag show ?thesis by simp
    next
      case (Cons u us')
      with tag have "u \<in> set tag" by simp
      moreover from us Cons have "u \<in> set t" by (auto simp: prefix_def)
      ultimately show ?thesis using assms by blast
    qed
  qed
next
  assume "prefix tag x"
  then show "prefix tag (x @ t)" by (rule prefix_prefix)
qed

lemma marker_match_trailing_space:
  assumes "tag \<noteq> []" "\<forall>c \<in> set tag. \<not> is_space c" "\<forall>c \<in> set t. is_space c"
  shows "marker_match tag (x @ t) = marker_match tag x"
proof (induction x)
  case Nil
  from assms(1,2) have "\<not> is_space (hd tag)" by (cases tag) auto
  with assms show ?case by (simp add: marker_match_spaces)
next
  case (Cons c cs)
  have p: "prefix tag (c # cs @ t) \<longleftrightarrow> prefix tag (c # cs)"
    using prefix_tag_trailing_space [OF assms(2,3), of "c # cs"] by simp
  show ?case
  proof (cases "prefix tag (c # cs)")
    case True
    then have "length tag \<le> length (c # cs)" by (rule prefix_length_le)
    then have "drop (length tag) (c # cs @ t) = drop (length tag) (c # cs) @ t"
      using drop_append [of "length tag" "c # cs" t] by simp
    then have "brace_payload (drop (length tag) (c # cs @ t)) = brace_payload (drop (length tag) (c # cs))"
      using brace_payload_trailing_space [OF assms(3)] by simp
    with True p Cons.IH show ?thesis by (simp split: option.splits)
  next
    case False
    with p Cons.IH show ?thesis by simp
  qed
qed

lemma marker_match_trim:
  assumes "tag \<noteq> []" "\<forall>c \<in> set tag. \<not> is_space c"
  shows "marker_match tag (trim s) = marker_match tag s"
proof -
  let ?y = "dropWhile is_space s"
  let ?t = "rev (takeWhile is_space (rev ?y))"
  have y: "?y = trim s @ ?t"
  proof -
    have "trim s @ ?t = rev (takeWhile is_space (rev ?y) @ dropWhile is_space (rev ?y))"
      by (simp only: trim_def rev_append)
    also have "\<dots> = rev (rev ?y)" by (simp only: takeWhile_dropWhile_id)
    also have "\<dots> = ?y" by (simp only: rev_rev_ident)
    finally show ?thesis by simp
  qed
  have t: "\<forall>c \<in> set ?t. is_space c" by (auto dest: set_takeWhileD)
  from assms have h: "\<not> is_space (hd tag)" by (cases tag) auto
  have "marker_match tag (trim s) = marker_match tag (trim s @ ?t)"
    using marker_match_trailing_space [OF assms t] by simp
  also have "\<dots> = marker_match tag ?y" using y by simp
  also have "\<dots> = marker_match tag s" by (rule marker_match_dropWhile [OF assms(1) h])
  finally show ?thesis .
qed

lemma tags_have_no_space:
  "CONFIRMED_TAG \<noteq> []" "\<forall>c \<in> set CONFIRMED_TAG. \<not> is_space c"
  "FAILED_TAG \<noteq> []" "\<forall>c \<in> set FAILED_TAG. \<not> is_space c"
  by (simp_all add: CONFIRMED_TAG_def FAILED_TAG_def is_space_def)

lemma fullText_confirmed:
  "marker_match CONFIRMED_TAG (trim out) = Some p \<longleftrightarrow> first_marker CONFIRMED_TAG out p"
  "marker_match CONFIRMED_TAG (trim out) = None \<longleftrightarrow> \<not> has_marker CONFIRMED_TAG out"
  by (simp_all add: marker_match_trim tags_have_no_space marker_match_Some_iff
        marker_match_None_iff_has_marker)

lemma fullText_failed:
  "marker_match FAILED_TAG (trim out) = Some p \<longleftrightarrow> first_marker FAILED_TAG out p"
  "marker_match FAILED_TAG (trim out) = None \<longleftrightarrow> \<not> has_marker FAILED_TAG out"
  by (simp_all add: marker_match_trim tags_have_no_space marker_match_Some_iff
        marker_match_None_iff_has_marker)

lemma getClaudeResponse_confirmed:
  assumes "first_marker CONFIRMED_TAG out p"
  shows "getClaudeResponse P (Inr out) =
      Inr \<lparr> r_response = trim (cut_from (CHR 0x0A # CONFIRMED_TAG) (trim out)),
            r_isComplete = True,
            r_appointmentResult =
              Some (case P p of Some data \<Rightarrow> spread_confirmed True data
                    | None \<Rightarrow> raw_result True p) \<rparr>"
  using assms fullText_confirmed(1) [of out p]
  by (simp add: getClaudeResponse_def Let_def)

lemma getClaudeResponse_failed:
  assumes "\<not> has_marker CONFIRMED_TAG out" "first_marker FAILED_TAG out p"
  shows "getClaudeResponse P (Inr out) =
      Inr \<lparr> r_response = trim (cut_from (CHR 0x0A # FAILED_TAG) (trim out)),
            r_isComplete = True,
            r_appointmentResult =
              Some (case P p of Some data \<Rightarrow> spread_confirmed False data
                    | None \<Rightarrow> raw_result False p) \<rparr>"
  using assms fullText_confirmed(2) [of out] fullText_failed(1) [of out p]
  by (simp add: getClaudeResponse_def Let_def)

lemma getClaudeResponse_no_marker:
  assumes "\<not> has_marker CONFIRMED_TAG out" "\<not> has_marker FAILED_TAG out"
  shows "getClaudeResponse P (Inr out) =
      Inr \<lparr> r_response = trim out, r_isComplete = False, r_appointmentResult = None \<rparr>"
  using assms fullText_confirmed(2) [of out] fullText_failed(2) [of out]
  by (simp add: getClaudeResponse_def Let_def)

lemma has_marker_first: "has_marker tag s \<longleftrightarrow> (\<exists>p. first_marker tag s p)"
  using marker_match_Some_iff [of tag s] has_marker_iff_match [of tag s] by auto

lemmas eval_parse = CONFIRMED_TAG_def FAILED_TAG_def brace_payload_def is_space_def trim_def
  JSON_parse_flat_def json_ws_def plain_string_def flat_value_def
  spread_confirmed_def raw_result_def

lemmas on_fullText = fullText_confirmed(1) [symmetric] fullText_failed(1) [symmetric]
  fullText_confirmed(2) [symmetric] fullText_failed(2) [symmetric]

lemma has_marker_on_fullText:
  "has_marker CONFIRMED_TAG out \<longleftrightarrow> marker_match CONFIRMED_TAG (trim out) \<noteq> None"
  "has_marker FAILED_TAG out \<longleftrightarrow> marker_match FAILED_TAG (trim out) \<noteq> None"
  using fullText_confirmed(2) [of out] fullText_failed(2) [of out] by auto

text \<open>
  Claim C3. Two replies of the delegate at which the code leaves the marker in what is
  spoken: one with the marker on the line of the sentence before it, one that is the
  marker alone. In both the marker is found (the result is terminal and the outcome is
  read from the payload), and the spoken text is the whole reply, marker included. The
  function's own comment says that the marker is stripped from what gets spoken.
\<close>

theorem marker_spoken_when_not_on_new_line:
  "getClaudeResponse JSON_parse_flat
     (Inr ''Great, see you then! APPOINTMENT_CONFIRMED: {\"date\":\"Friday\"}'') =
   Inr \<lparr> r_response = ''Great, see you then! APPOINTMENT_CONFIRMED: {\"date\":\"Friday\"}'',
         r_isComplete = True,
         r_appointmentResult = Some [''confirmed'' \<mapsto> JBool True, ''date'' \<mapsto> JStr ''Friday''] \<rparr>
   \<and> getClaudeResponse JSON_parse_flat
     (Inr ''APPOINTMENT_FAILED: {\"reason\":\"fully booked\"}'') =
   Inr \<lparr> r_response = ''APPOINTMENT_FAILED: {\"reason\":\"fully booked\"}'',
         r_isComplete = True,
         r_appointmentResult =
           Some [''confirmed'' \<mapsto> JBool False, ''reason'' \<mapsto> JStr ''fully booked''] \<rparr>"
  by (simp add: getClaudeResponse_def eval_parse)

text \<open>
  Claim C4, as the code has it. The marker that decides is the first confirmed marker of
  the reply, and the first failed marker when the reply has no confirmed one. When the
  payload of the deciding marker does not parse, the function still returns, the result
  is terminal, and the outcome holds that raw payload under \<^verbatim>\<open>raw\<close>, with \<^verbatim>\<open>confirmed\<close>
  true for the confirmed marker and false for the failed one. Every reply that has a
  marker is terminal and has an outcome, whether the payload parses or not. A marker that
  does not decide is not covered.
\<close>

theorem malformed_payload_kept_raw:
  "(first_marker CONFIRMED_TAG out p \<and> P p = None \<longrightarrow>
      (\<exists>r. getClaudeResponse P (Inr out) = Inr r \<and> r_isComplete r
          \<and> r_appointmentResult r = Some [''confirmed'' \<mapsto> JBool True, ''raw'' \<mapsto> JStr p]))
   \<and> (\<not> has_marker CONFIRMED_TAG out \<and> first_marker FAILED_TAG out p \<and> P p = None \<longrightarrow>
      (\<exists>r. getClaudeResponse P (Inr out) = Inr r \<and> r_isComplete r
          \<and> r_appointmentResult r = Some [''confirmed'' \<mapsto> JBool False, ''raw'' \<mapsto> JStr p]))
   \<and> (has_marker CONFIRMED_TAG out \<or> has_marker FAILED_TAG out \<longrightarrow>
      (\<exists>r. getClaudeResponse P (Inr out) = Inr r \<and> r_isComplete r
          \<and> r_appointmentResult r \<noteq> None))"
proof (intro conjI impI)
  assume "first_marker CONFIRMED_TAG out p \<and> P p = None"
  then show "\<exists>r. getClaudeResponse P (Inr out) = Inr r \<and> r_isComplete r
          \<and> r_appointmentResult r = Some [''confirmed'' \<mapsto> JBool True, ''raw'' \<mapsto> JStr p]"
    using getClaudeResponse_confirmed [of out p P] by (simp add: raw_result_def)
next
  assume "\<not> has_marker CONFIRMED_TAG out \<and> first_marker FAILED_TAG out p \<and> P p = None"
  then show "\<exists>r. getClaudeResponse P (Inr out) = Inr r \<and> r_isComplete r
          \<and> r_appointmentResult r = Some [''confirmed'' \<mapsto> JBool False, ''raw'' \<mapsto> JStr p]"
    using getClaudeResponse_failed [of out p P] by (simp add: raw_result_def)
next
  assume h: "has_marker CONFIRMED_TAG out \<or> has_marker FAILED_TAG out"
  show "\<exists>r. getClaudeResponse P (Inr out) = Inr r \<and> r_isComplete r
          \<and> r_appointmentResult r \<noteq> None"
  proof (cases "has_marker CONFIRMED_TAG out")
    case True
    then obtain pc where "first_marker CONFIRMED_TAG out pc" by (auto simp: has_marker_first)
    then show ?thesis using getClaudeResponse_confirmed [of out pc P] by simp
  next
    case False
    with h obtain pf where "first_marker FAILED_TAG out pf" by (auto simp: has_marker_first)
    with False show ?thesis using getClaudeResponse_failed [of out pf P] by simp
  qed
qed

theorem malformed_payload_kept_raw_witness:
  "(\<exists>r. getClaudeResponse JSON_parse_flat
          (Inr ''See you!\<newline>APPOINTMENT_CONFIRMED: {date: Friday}'') = Inr r
        \<and> r_isComplete r
        \<and> r_appointmentResult r =
             Some [''confirmed'' \<mapsto> JBool True, ''raw'' \<mapsto> JStr ''{date: Friday}''])
   \<and> (\<exists>r. getClaudeResponse JSON_parse_flat
          (Inr ''Goodbye.\<newline>APPOINTMENT_FAILED: {nothing free}'') = Inr r
        \<and> r_isComplete r
        \<and> r_appointmentResult r =
             Some [''confirmed'' \<mapsto> JBool False, ''raw'' \<mapsto> JStr ''{nothing free}''])"
  using
    malformed_payload_kept_raw [where P = JSON_parse_flat
      and out = "''See you!\<newline>APPOINTMENT_CONFIRMED: {date: Friday}''"
      and p = "''{date: Friday}''"]
    malformed_payload_kept_raw [where P = JSON_parse_flat
      and out = "''Goodbye.\<newline>APPOINTMENT_FAILED: {nothing free}''"
      and p = "''{nothing free}''"]
  unfolding on_fullText has_marker_on_fullText
  by (simp add: eval_parse)

text \<open>
  A failed marker whose payload does not parse, followed by a confirmed marker whose
  payload does: the outcome is the confirmed one, and the raw payload is not in it.
\<close>

theorem malformed_marker_ignored_counterexample:
  "getClaudeResponse JSON_parse_flat
     (Inr ''Ok.\<newline>APPOINTMENT_FAILED: {nothing free}\<newline>APPOINTMENT_CONFIRMED: {\"date\":\"Fri\"}'') =
   Inr \<lparr> r_response = ''Ok.\<newline>APPOINTMENT_FAILED: {nothing free}'',
         r_isComplete = True,
         r_appointmentResult = Some [''confirmed'' \<mapsto> JBool True, ''date'' \<mapsto> JStr ''Fri''] \<rparr>
   \<and> JSON_parse_flat ''{nothing free}'' = None"
  by (simp add: getClaudeResponse_def eval_parse)

text \<open>
  With both markers in the reply, the confirmed branch is the one taken: the outcome is
  built from the payload of the first confirmed marker, whatever the failed marker holds.
\<close>

lemma confirmed_branch_decides:
  assumes "has_marker CONFIRMED_TAG out" "has_marker FAILED_TAG out"
  shows "\<exists>pc. first_marker CONFIRMED_TAG out pc
          \<and> getClaudeResponse P (Inr out) =
              Inr \<lparr> r_response = trim (cut_from (CHR 0x0A # CONFIRMED_TAG) (trim out)),
                    r_isComplete = True,
                    r_appointmentResult =
                      Some (case P pc of Some data \<Rightarrow> spread_confirmed True data
                            | None \<Rightarrow> raw_result True pc) \<rparr>"
proof -
  from assms(1) obtain pc where pc: "first_marker CONFIRMED_TAG out pc"
    by (auto simp: has_marker_first)
  from getClaudeResponse_confirmed [OF pc, of P] pc show ?thesis by blast
qed

text \<open>
  Claim C10. A reply with both markers at which the outcome is not a confirmed one: the
  payload of the confirmed marker has a member \<^verbatim>\<open>confirmed\<close> with the value false, and the
  object literal spreads the payload after its own \<^verbatim>\<open>confirmed: true\<close>, so the payload's
  member replaces it. The branch is the confirmed one (the spoken text is cut at the
  confirmed marker, and the reason of the failed marker is not in the outcome).
\<close>

theorem confirmed_member_overrides_literal:
  "getClaudeResponse JSON_parse_flat
     (Inr ''Booked.\<newline>APPOINTMENT_CONFIRMED: {\"confirmed\": false}\<newline>APPOINTMENT_FAILED: {\"reason\": \"x\"}'') =
   Inr \<lparr> r_response = ''Booked.'',
         r_isComplete = True,
         r_appointmentResult = Some [''confirmed'' \<mapsto> JBool False] \<rparr>"
  by (simp add: getClaudeResponse_def eval_parse)

subsection \<open>Status and outcome over the events of a session\<close>

text \<open>
  Two facts are kept by the events named: a completed session stays completed, with its
  outcome, under speech, no-speech and carrier status events; a terminal status stays
  terminal under every event but the answered webhook.
\<close>

lemma completed_kept_step:
  assumes "status s = ''completed''" "\<not> is_start e" "\<not> is_delegate_done e"
  shows "status (apply_event P e s) = ''completed''
       \<and> appointmentResult (apply_event P e s) = appointmentResult s"
  using assms
  by (cases e)
     (simp_all add: gather_record_def no_input_session_def status_session_def Let_def
        split: option.splits)

lemma completed_kept_run:
  assumes "status s = ''completed''" "list_all (\<lambda>e. \<not> is_start e \<and> \<not> is_delegate_done e) evs"
  shows "status (run P evs s) = ''completed''
       \<and> appointmentResult (run P evs s) = appointmentResult s"
  using assms
proof (induction evs arbitrary: s)
  case Nil
  then show ?case by simp
next
  case (Cons e evs)
  from Cons.prems have e: "\<not> is_start e" "\<not> is_delegate_done e"
    and rest: "list_all (\<lambda>e. \<not> is_start e \<and> \<not> is_delegate_done e) evs" by simp_all
  from completed_kept_step [OF Cons.prems(1) e, of P]
  have st: "status (apply_event P e s) = ''completed''"
    and ar: "appointmentResult (apply_event P e s) = appointmentResult s" by simp_all
  from Cons.IH [OF st rest] ar show ?case by simp
qed

lemma status_keeps_outcome:
  assumes "appointmentResult s \<noteq> None"
  shows "appointmentResult (status_session cs s) = appointmentResult s"
  using assms by (auto simp: status_session_def Let_def split: option.splits)

lemma status_on_completed:
  assumes "status s = ''completed''"
  shows "status_session cs s = s\<lparr> twilioStatus := cs \<rparr>"
  using assms by (simp add: status_session_def Let_def split: option.splits)

lemma terminal_simps:
  "terminal ''completed''" "terminal ''failed''" "terminal ''no-answer''"
  "terminal ''busy''" "terminal ''canceled''" "\<not> terminal ''calling''" "\<not> terminal ''in-progress''"
  by (simp_all add: terminal_def TERMINAL_STATUSES_def)

lemma terminal_kept_step:
  assumes "terminal (status s)" "\<not> is_start e"
  shows "terminal (status (apply_event P e s))"
proof (cases e)
  case Start
  with assms show ?thesis by simp
next
  case (Speech sp)
  with assms show ?thesis by (simp add: gather_record_def)
next
  case (DelegateDone reply)
  with assms show ?thesis
    by (simp add: gather_resolve_def Let_def terminal_simps split: sum.splits)
next
  case NoInput
  with assms show ?thesis by (simp add: no_input_session_def terminal_simps)
next
  case (CarrierStatus cs)
  with assms show ?thesis
    by (auto simp: status_session_def Let_def terminal_simps split: option.splits)
qed

lemma terminal_kept_run:
  assumes "terminal (status s)" "list_all (\<lambda>e. \<not> is_start e) evs"
  shows "terminal (status (run P evs s))"
  using assms
proof (induction evs arbitrary: s)
  case Nil
  then show ?case by simp
next
  case (Cons e evs)
  then show ?case by (simp add: terminal_kept_step)
qed

lemmas eval_session = alex_session_def alex_body_def new_session_def start_session_def
  gather_record_def gather_resolve_def getClaudeResponse_def no_input_session_def
  status_session_def technical_error_def no_response_def call_reason_def or_default_def
  terminal_def TERMINAL_STATUSES_def

lemma booked_session_fields:
  "status booked_session = ''completed''"
  "appointmentResult booked_session = Some [''confirmed'' \<mapsto> JBool True, ''date'' \<mapsto> JStr ''Friday'']"
  by (simp_all add: booked_session_def eval_session eval_parse Let_def)

lemma busy_session_fields:
  "status busy_session = ''busy''"
  "appointmentResult busy_session = Some [''confirmed'' \<mapsto> JBool False, ''reason'' \<mapsto> JStr ''Call busy'']"
  by (simp_all add: busy_session_def eval_session Let_def)

text \<open>
  Claim C1, as the code has it. Once a session is completed, no later no-speech timeout
  and no later carrier status callback changes its status or its outcome, whatever the
  order and number of such events (recorded speech does not either); on a completed
  session a carrier status callback changes the carrier status field alone; and a carrier
  status callback never changes an outcome that is already set, whatever the status. A
  later result of the delegate, and a no-speech timeout on a session that ended otherwise
  than completed, are not covered.
\<close>

theorem completed_outcome_kept:
  "(status s = ''completed''
      \<and> list_all (\<lambda>e. \<not> is_start e \<and> \<not> is_delegate_done e) evs \<longrightarrow>
        status (run P evs s) = ''completed''
        \<and> appointmentResult (run P evs s) = appointmentResult s)
   \<and> (status s = ''completed'' \<longrightarrow> status_session cs s = s\<lparr> twilioStatus := cs \<rparr>)
   \<and> (appointmentResult s \<noteq> None \<longrightarrow>
        appointmentResult (status_session cs s) = appointmentResult s)"
  using completed_kept_run [of s evs P] status_on_completed [of s cs] status_keeps_outcome [of s cs]
  by blast

theorem completed_outcome_kept_witness:
  "status (run JSON_parse_flat [CarrierStatus (Some ''failed''), NoInput] booked_session) = ''completed''
   \<and> appointmentResult (run JSON_parse_flat [CarrierStatus (Some ''failed''), NoInput] booked_session) =
       Some [''confirmed'' \<mapsto> JBool True, ''date'' \<mapsto> JStr ''Friday'']
   \<and> status_session (Some ''failed'') booked_session = booked_session\<lparr> twilioStatus := Some ''failed'' \<rparr>
   \<and> appointmentResult (status_session (Some ''no-answer'') busy_session) =
       Some [''confirmed'' \<mapsto> JBool False, ''reason'' \<mapsto> JStr ''Call busy'']"
  using completed_outcome_kept [where s = booked_session and P = JSON_parse_flat
          and evs = "[CarrierStatus (Some ''failed''), NoInput]" and cs = "Some ''failed''"]
        completed_outcome_kept [where s = busy_session and P = JSON_parse_flat
          and evs = "[]" and cs = "Some ''no-answer''"]
  by (auto simp: booked_session_fields busy_session_fields)

text \<open>
  A session whose delegate failed has the outcome of a technical error; the no-speech
  timeout that follows replaces the outcome and the status.
\<close>

theorem outcome_overwritten_counterexample:
  "appointmentResult
     (run JSON_parse_flat [Start, Speech (Some ''Hello?''), DelegateDone (Inl ''timeout'')]
        alex_session) =
     Some [''confirmed'' \<mapsto> JBool False, ''reason'' \<mapsto> JStr ''Technical error during call'']
   \<and> appointmentResult
     (run JSON_parse_flat [Start, Speech (Some ''Hello?''), DelegateDone (Inl ''timeout''), NoInput]
        alex_session) =
     Some [''confirmed'' \<mapsto> JBool False, ''reason'' \<mapsto> JStr ''No response from salon'']
   \<and> status
     (run JSON_parse_flat [Start, Speech (Some ''Hello?''), DelegateDone (Inl ''timeout'')]
        alex_session) = ''failed''
   \<and> status
     (run JSON_parse_flat [Start, Speech (Some ''Hello?''), DelegateDone (Inl ''timeout''), NoInput]
        alex_session) = ''no-answer''"
  by (simp add: eval_session Let_def)

text \<open>
  Claim C2, as the code has it. No recorded speech, delegate result, no-speech timeout
  or carrier status callback takes a session from a terminal status to one that is not
  terminal, whatever the order and number of such events; the answered webhook takes a
  session that is dialing to \<^verbatim>\<open>in-progress\<close>. What the answered webhook does to a
  terminal session is not covered.
\<close>

theorem terminal_status_kept:
  "(terminal (status s) \<and> list_all (\<lambda>e. \<not> is_start e) evs \<longrightarrow>
      terminal (status (run P evs s)))
   \<and> (status s = ''calling'' \<longrightarrow> status (apply_event P Start s) = ''in-progress'')"
  using terminal_kept_run [of s evs P] by (simp add: start_session_def)

theorem terminal_status_kept_witness:
  "terminal (status (run JSON_parse_flat
       [Speech (Some ''Hello?''), DelegateDone (Inr ''Are you there?''), NoInput,
        CarrierStatus (Some ''in-progress'')] busy_session))
   \<and> status (apply_event JSON_parse_flat Start alex_session) = ''in-progress''"
  using terminal_status_kept [where s = busy_session and P = JSON_parse_flat
          and evs = "[Speech (Some ''Hello?''), DelegateDone (Inr ''Are you there?''), NoInput,
                      CarrierStatus (Some ''in-progress'')]"]
        terminal_status_kept [where s = alex_session and P = JSON_parse_flat and evs = "[]"]
  by (simp add: busy_session_fields terminal_simps alex_session_def new_session_def Let_def)

text \<open>
  A session the carrier reported busy, then the answered webhook: the status is
  \<^verbatim>\<open>in-progress\<close> again.
\<close>

theorem status_reverts_counterexample:
  "status (run JSON_parse_flat [CarrierStatus (Some ''busy'')] alex_session) = ''busy''
   \<and> terminal (status (run JSON_parse_flat [CarrierStatus (Some ''busy'')] alex_session))
   \<and> status (run JSON_parse_flat [CarrierStatus (Some ''busy''), Start] alex_session) = ''in-progress''
   \<and> \<not> terminal (status (run JSON_parse_flat [CarrierStatus (Some ''busy''), Start] alex_session))"
  by (simp add: eval_session Let_def)

subsection \<open>A failing delegate\<close>

text \<open>
  Claim C9, as the code has it. When the request to the delegate fails while a connected
  session waits for its answer, the handler still answers (status code 200): the carrier
  is told to speak the sentence of apology given below and to hang up, the session
  becomes \<^verbatim>\<open>failed\<close>, and its outcome is not confirmed, with the reason
  \<^verbatim>\<open>Technical error during call\<close>.
\<close>

theorem delegate_failure_fails_session:
  assumes "reg k = Some s" and "status s = ''in-progress''"
  shows "\<exists>s'. voice_gather P env (Inl err) reg (Some k) speech =
            (\<lparr> code = 200,
               body = Xml [Say (Some ''alice'')
                            ''I apologize, I encountered a technical issue. I will have the customer reach out directly. Thank you and goodbye.'',
                          Hangup] \<rparr>,
             reg(k \<mapsto> s'))
          \<and> status s' = ''failed''
          \<and> appointmentResult s' =
              Some [''confirmed'' \<mapsto> JBool False, ''reason'' \<mapsto> JStr ''Technical error during call'']"
proof -
  let ?s' = "fst (gather_resolve P (BASE_URL env) (Inl err) (gather_record (or_default speech []) s))"
  show ?thesis
    using assms
    by (intro exI [of _ ?s'])
       (simp add: voice_gather_def gather_resolve_def getClaudeResponse_def xml_def
          technical_error_def apology_def)
qed

theorem delegate_failure_fails_session_witness:
  "status (start_session alex_session) = ''in-progress''
   \<and> (\<exists>s'. voice_gather JSON_parse_flat test_env
            (Inl ''timeout'') [''CA1'' \<mapsto> start_session alex_session] (Some ''CA1'') (Some ''Hello?'') =
            (\<lparr> code = 200,
               body = Xml [Say (Some ''alice'')
                            ''I apologize, I encountered a technical issue. I will have the customer reach out directly. Thank you and goodbye.'',
                          Hangup] \<rparr>,
             [''CA1'' \<mapsto> start_session alex_session](''CA1'' \<mapsto> s'))
          \<and> status s' = ''failed''
          \<and> appointmentResult s' =
              Some [''confirmed'' \<mapsto> JBool False, ''reason'' \<mapsto> JStr ''Technical error during call''])"
  using delegate_failure_fails_session [where reg = "[''CA1'' \<mapsto> start_session alex_session]"
      and k = "''CA1''" and s = "start_session alex_session" and P = JSON_parse_flat
      and env = test_env and err = "''timeout''" and speech = "Some ''Hello?''"]
  by (simp add: start_session_def)

text \<open>
  The reason stored for a connected session whose delegate failed is not the text
  \<^verbatim>\<open>technical error\<close>.
\<close>

theorem failure_reason_wording_counterexample:
  "status (run JSON_parse_flat [Start, Speech (Some ''Hello?'')] alex_session) = ''in-progress''
   \<and> appointmentResult
       (run JSON_parse_flat [Start, Speech (Some ''Hello?''), DelegateDone (Inl ''timeout'')]
          alex_session) =
     Some [''confirmed'' \<mapsto> JBool False, ''reason'' \<mapsto> JStr ''Technical error during call'']
   \<and> [''confirmed'' \<mapsto> JBool False, ''reason'' \<mapsto> JStr ''Technical error during call''] ''reason''
       \<noteq> Some (JStr ''technical error'')"
  by (simp add: eval_session Let_def)

subsection \<open>The session store\<close>

lemma dom_post_api_call: "dom reg \<subseteq> dom (fst (snd (post_api_call env carrier now reg b)))"
  by (cases "hairdresserPhone b"; cases "customerName b"; cases "service b")
     (auto simp: post_api_call_def Let_def split: sum.splits)

lemma dom_voice_start: "dom reg \<subseteq> dom (snd (voice_start env reg sid))"
  by (auto simp: voice_start_def split: option.splits)

lemma dom_voice_gather: "dom reg \<subseteq> dom (snd (voice_gather P env reply reg sid speech))"
  by (auto simp: voice_gather_def split: option.splits prod.splits)

lemma dom_voice_no_input: "dom reg \<subseteq> dom (snd (voice_no_input env reg sid))"
  by (auto simp: voice_no_input_def split: option.splits)

lemma dom_voice_status: "dom reg \<subseteq> dom (snd (voice_status reg sid cs))"
  by (auto simp: voice_status_def split: option.splits)

text \<open>
  Claim C7, as the code has it. The store is a plain map. Storing the session of a placed
  call never fails: an identifier that is already present gets the new session in place of
  the old one, so there is one session per identifier at any time. An unknown identifier
  finds no session: the polling route answers 404 with \<^verbatim>\<open>Call not found\<close>, the answered
  and speech webhooks answer with the apology and hang up, and no handler changes the
  store. No handler removes an identifier from the store.
\<close>

theorem store_is_plain_map:
  "(truthy (hairdresserPhone b) \<and> truthy (customerName b) \<and> truthy (service b)
      \<and> truthy (BASE_URL env) \<longrightarrow>
      code (fst (post_api_call env (Inr sid) now reg b)) = 200
      \<and> (\<exists>s. fst (snd (post_api_call env (Inr sid) now reg b)) = reg(sid \<mapsto> s)
             \<and> status s = ''calling'' \<and> createdAt s = now))
   \<and> (reg sid = None \<longrightarrow>
        get_api_call reg sid = \<lparr> code = 404, body = ErrorJson ''Call not found'' \<rparr>
        \<and> voice_start env reg (Some sid) = (xml unknown_session_twiml, reg)
        \<and> voice_gather P env reply reg (Some sid) speech = (xml unknown_session_twiml, reg)
        \<and> snd (voice_no_input env reg (Some sid)) = reg
        \<and> snd (voice_status reg (Some sid) cs) = reg)
   \<and> dom reg \<subseteq> dom (fst (snd (post_api_call env carrier now reg b)))
   \<and> dom reg \<subseteq> dom (snd (voice_start env reg csid))
   \<and> dom reg \<subseteq> dom (snd (voice_gather P env reply reg csid speech))
   \<and> dom reg \<subseteq> dom (snd (voice_no_input env reg csid))
   \<and> dom reg \<subseteq> dom (snd (voice_status reg csid cs))"
proof (intro conjI impI)
  assume a: "truthy (hairdresserPhone b) \<and> truthy (customerName b) \<and> truthy (service b)
      \<and> truthy (BASE_URL env)"
  then have r: "post_api_call env (Inr sid) now reg b =
      (\<lparr> code = 200, body = CallJson sid ''calling'' \<rparr>,
       reg(sid \<mapsto> new_session sid (the (hairdresserPhone b)) (the (customerName b))
                                  (the (service b)) b now),
       [\<lparr> to_number = the (hairdresserPhone b), from_number = TWILIO_PHONE_NUMBER env,
          url = tmpl (BASE_URL env) @ ''/voice/start'',
          statusCallback = tmpl (BASE_URL env) @ ''/voice/status'' \<rparr>])"
    by (simp add: post_api_call_present)
  show "code (fst (post_api_call env (Inr sid) now reg b)) = 200" by (simp add: r)
  show "\<exists>s. fst (snd (post_api_call env (Inr sid) now reg b)) = reg(sid \<mapsto> s)
             \<and> status s = ''calling'' \<and> createdAt s = now"
    unfolding r
    by (rule exI [of _ "new_session sid (the (hairdresserPhone b)) (the (customerName b))
                                  (the (service b)) b now"])
       (simp add: new_session_def Let_def)
next
  assume n: "reg sid = None"
  show "get_api_call reg sid = \<lparr> code = 404, body = ErrorJson ''Call not found'' \<rparr>"
    using n by (simp add: get_api_call_def)
  show "voice_start env reg (Some sid) = (xml unknown_session_twiml, reg)"
    using n by (simp add: voice_start_def)
  show "voice_gather P env reply reg (Some sid) speech = (xml unknown_session_twiml, reg)"
    using n by (simp add: voice_gather_def)
  show "snd (voice_no_input env reg (Some sid)) = reg"
    using n by (simp add: voice_no_input_def)
  show "snd (voice_status reg (Some sid) cs) = reg"
    using n by (simp add: voice_status_def)
qed (rule dom_post_api_call dom_voice_start dom_voice_gather dom_voice_no_input dom_voice_status)+

theorem store_is_plain_map_witness:
  "code (fst (post_api_call test_env (Inr ''CA1'') 7 [''CA1'' \<mapsto> booked_session] alex_body)) = 200
   \<and> (\<exists>s. fst (snd (post_api_call test_env (Inr ''CA1'') 7 [''CA1'' \<mapsto> booked_session] alex_body)) =
            [''CA1'' \<mapsto> s] \<and> status s = ''calling'' \<and> createdAt s = 7)
   \<and> get_api_call [''CA1'' \<mapsto> booked_session] ''CA2'' =
        \<lparr> code = 404, body = ErrorJson ''Call not found'' \<rparr>
   \<and> voice_start test_env [''CA1'' \<mapsto> booked_session] (Some ''CA2'') =
        (xml unknown_session_twiml, [''CA1'' \<mapsto> booked_session])"
  using store_is_plain_map [where b = alex_body and env = test_env and sid = "''CA1''"
          and now = 7 and reg = "[''CA1'' \<mapsto> booked_session]"]
        store_is_plain_map [where b = alex_body and env = test_env and sid = "''CA2''"
          and now = 7 and reg = "[''CA1'' \<mapsto> booked_session]"]
  by (simp add: alex_body_def test_env_def)

text \<open>
  A call is placed and the carrier returns an identifier under which a completed session
  is stored: the answer is 200, and a fresh session has taken the place of the completed
  one.
\<close>

theorem duplicate_id_replaces_counterexample:
  "fst (post_api_call test_env (Inr ''CA1'') 7 [''CA1'' \<mapsto> booked_session] alex_body) =
     \<lparr> code = 200, body = CallJson ''CA1'' ''calling'' \<rparr>
   \<and> map_option status
       (fst (snd (post_api_call test_env (Inr ''CA1'') 7 [''CA1'' \<mapsto> booked_session] alex_body)) ''CA1'') =
     Some ''calling''
   \<and> map_option appointmentResult
       (fst (snd (post_api_call test_env (Inr ''CA1'') 7 [''CA1'' \<mapsto> booked_session] alex_body)) ''CA1'') =
     Some None
   \<and> status booked_session = ''completed''"
  by (simp add: post_api_call_def alex_body_def test_env_def new_session_def Let_def
        booked_session_fields)

subsection \<open>The no-speech timeout\<close>






end
